theory Spec2Isabelle
  imports Complex_Main
begin

section \<open>Avellaneda market maker: quote engine and order reconciler\<close>

text \<open>
  A shallow embedding of \<^verbatim>\<open>AvellanedaMarketMaker\<close> (src/helper.py).
  Python floats are read as real numbers, Python ints as \<^typ>\<open>int\<close>. Every
  exception the source can raise on well-typed input is a value of \<open>exn\<close>; a
  function that can raise returns \<open>exn + 'a\<close>, with \<open>Inl\<close> for the exception.
\<close>

subsection \<open>Exceptions and the arithmetic that can raise\<close>

datatype exn = ZeroDivisionError | ValueError | KeyError | HTTPError nat | ConnectionError

text \<open>\<^verbatim>\<open>a / b\<close> raises ZeroDivisionError when \<open>b\<close> is zero.\<close>

definition py_div :: "real \<Rightarrow> real \<Rightarrow> exn + real" where
  "py_div a b = (if b = 0 then Inl ZeroDivisionError else Inr (a / b))"

text \<open>\<^verbatim>\<open>math.log(x)\<close> raises ValueError outside its domain.\<close>

definition py_log :: "real \<Rightarrow> exn + real" where
  "py_log x = (if x \<le> 0 then Inl ValueError else Inr (ln x))"

text \<open>\<^verbatim>\<open>int(x)\<close> on a float truncates towards zero.\<close>

definition py_int :: "real \<Rightarrow> int" where
  "py_int x = (if 0 \<le> x then \<lfloor>x\<rfloor> else \<lceil>x\<rceil>)"

text \<open>Sequencing of computations that can raise: the first exception wins.\<close>

definition then_exn :: "exn + 'a \<Rightarrow> ('a \<Rightarrow> exn + 'b) \<Rightarrow> exn + 'b" where
  "then_exn m f = (case m of Inl e \<Rightarrow> Inl e | Inr x \<Rightarrow> f x)"

subsection \<open>Strategy parameters\<close>

text \<open>
  The fields set by \<^verbatim>\<open>__init__\<close>. The source's \<^verbatim>\<open>self.k\<close> and \<^verbatim>\<open>self.T\<close> are
  \<open>param_k\<close> and \<open>param_T\<close> here.
\<close>

record market_maker =
  market_ticker :: string
  base_gamma :: real
  param_k :: real
  sigma :: real
  param_T :: real
  max_position :: int
  order_expiration :: int
  min_spread :: real
  position_limit_buffer :: real
  inventory_skew_factor :: real
  trade_side :: string

subsection \<open>Quote engine\<close>

definition calculate_dynamic_gamma :: "market_maker \<Rightarrow> int \<Rightarrow> exn + real" where
  "calculate_dynamic_gamma p inventory =
     then_exn (py_div (real_of_int inventory) (real_of_int (max_position p)))
       (\<lambda>position_ratio. Inr (base_gamma p * exp (- \<bar>position_ratio\<bar>)))"

definition calculate_reservation_price :: "market_maker \<Rightarrow> real \<Rightarrow> int \<Rightarrow> real \<Rightarrow> exn + real" where
  "calculate_reservation_price p mid_price inventory t =
     then_exn (calculate_dynamic_gamma p inventory) (\<lambda>dynamic_gamma.
     let inventory_skew = real_of_int inventory * inventory_skew_factor p * mid_price in
     then_exn (py_div t (param_T p)) (\<lambda>tT.
       Inr (mid_price + inventory_skew
            - real_of_int inventory * dynamic_gamma * (sigma p)\<^sup>2 * (1 - tT))))"

definition calculate_optimal_spread :: "market_maker \<Rightarrow> real \<Rightarrow> int \<Rightarrow> exn + real" where
  "calculate_optimal_spread p t inventory =
     then_exn (calculate_dynamic_gamma p inventory) (\<lambda>dynamic_gamma.
     then_exn (py_div t (param_T p)) (\<lambda>tT.
     then_exn (py_div 2 dynamic_gamma) (\<lambda>two_over_gamma.
     then_exn (py_div dynamic_gamma (param_k p)) (\<lambda>gamma_over_k.
     then_exn (py_log (1 + gamma_over_k)) (\<lambda>lg.
     let base_spread = dynamic_gamma * (sigma p)\<^sup>2 * (1 - tT) + two_over_gamma * lg in
     then_exn (py_div (real_of_int \<bar>inventory\<bar>) (real_of_int (max_position p))) (\<lambda>position_ratio.
     let spread_adjustment = 1 - position_ratio\<^sup>2 in
       Inr (max (base_spread * spread_adjustment * 0.01) (min_spread p))))))))"

definition calculate_asymmetric_quotes ::
  "market_maker \<Rightarrow> real \<Rightarrow> int \<Rightarrow> real \<Rightarrow> exn + (real \<times> real)" where
  "calculate_asymmetric_quotes p mid_price inventory t =
     then_exn (calculate_reservation_price p mid_price inventory t) (\<lambda>reservation_price.
     then_exn (calculate_optimal_spread p t inventory) (\<lambda>base_spread.
     then_exn (py_div (real_of_int inventory) (real_of_int (max_position p))) (\<lambda>position_ratio.
     let spread_adjustment = base_spread * \<bar>position_ratio\<bar> * 3;
         bid_spread = (if inventory > 0
                       then base_spread / 2 + spread_adjustment
                       else max (base_spread / 2 - spread_adjustment) (min_spread p / 2));
         ask_spread = (if inventory > 0
                       then max (base_spread / 2 - spread_adjustment) (min_spread p / 2)
                       else base_spread / 2 + spread_adjustment);
         bid_price = max 0 (min mid_price (reservation_price - bid_spread));
         ask_price = min 1 (max mid_price (reservation_price + ask_spread))
     in Inr (bid_price, ask_price))))"

definition calculate_order_sizes :: "market_maker \<Rightarrow> int \<Rightarrow> int \<times> int" where
  "calculate_order_sizes p inventory =
     (let remaining_capacity = max_position p - \<bar>inventory\<bar>;
          buffer_size = py_int (real_of_int (max_position p) * position_limit_buffer p)
      in if inventory > 0
         then (max 1 (min buffer_size remaining_capacity), max 1 (max_position p))
         else (max 1 (max_position p), max 1 (min buffer_size remaining_capacity)))"

subsection \<open>The venue as seen through the HTTP client\<close>

text \<open>
  A resting order as returned by \<^verbatim>\<open>client.get_orders\<close> (the dictionary keys the
  strategy reads), the \<^verbatim>\<open>market\<close> dictionary of \<^verbatim>\<open>client.get_market\<close> (prices in
  cents), one entry of \<^verbatim>\<open>market_positions\<close>, and the keyword arguments of
  \<^verbatim>\<open>client.create_order\<close>.
\<close>

record order =
  order_id :: string
  side :: string
  action :: string
  yes_price :: int
  no_price :: int
  remaining_count :: int

record market =
  yes_bid :: int
  yes_ask :: int
  no_bid :: int
  no_ask :: int

record market_position =
  ticker :: string
  position :: int

record order_request =
  req_ticker :: string
  req_client_order_id :: string
  req_side :: string
  req_action :: string
  req_count :: int
  req_type :: string
  req_yes_price :: "int option"
  req_no_price :: "int option"
  req_expiration_ts :: int

text \<open>
  Everything the strategy does to the outside world is an event: a client call with
  its outcome, or a log record. The events of a run, oldest first, are its trace.
\<close>

datatype call =
    GetMarket string
  | GetPositions string string
  | GetOrders string string
  | CancelOrder string
  | CreateOrder order_request

datatype outcome = Returned | Raised exn

datatype level = INFO | ERROR

datatype message =
    Running real
  | Current_mid string real int
  | Reservation real
  | Desired real real
  | Retrieved nat
  | Current_buy_orders nat
  | Current_sell_orders nat
  | Keeping string string real
  | Cancelling string string real
  | Failed_to_cancel string exn
  | Placed string string real int
  | Failed_to_place string exn
  | Skipped string real real

datatype event = Invoked call outcome | Log level message

text \<open>
  The world outside the strategy: what each client method answers, the UUID generator
  and the clock. Each answer may depend on everything that happened before (the trace
  so far), so a cancel can change what a later fetch returns. A client method either
  returns or raises an \<^verbatim>\<open>Exception\<close>. \<open>create_order\<close> returns the order id of
  the response, or \<open>None\<close> for a response without \<^verbatim>\<open>['order']['order_id']\<close>.
\<close>

record world =
  get_market :: "event list \<Rightarrow> string \<Rightarrow> exn + market"
  get_positions :: "event list \<Rightarrow> string \<Rightarrow> exn + market_position list"
  get_orders :: "event list \<Rightarrow> string \<Rightarrow> exn + order list"
  cancel_order :: "event list \<Rightarrow> string \<Rightarrow> exn + unit"
  create_order :: "event list \<Rightarrow> order_request \<Rightarrow> exn + string option"
  uuid4 :: "event list \<Rightarrow> string"
  time_time :: "event list \<Rightarrow> real"

definition log :: "level \<Rightarrow> message \<Rightarrow> event list \<Rightarrow> event list" where
  "log lv m tr = tr @ [Log lv m]"

subsection \<open>Fetching state\<close>

text \<open>
  \<^verbatim>\<open>round(x, 2)\<close>: to the nearest multiple of 0.01, a tie going to the even one.
\<close>

definition round_half_even :: "real \<Rightarrow> int" where
  "round_half_even x =
     (let f = \<lfloor>x\<rfloor>; d = x - real_of_int f
      in if d < 1 / 2 then f else if 1 / 2 < d then f + 1 else if even f then f else f + 1)"

definition py_round2 :: "real \<Rightarrow> real" where
  "py_round2 x = real_of_int (round_half_even (x * 100)) / 100"

definition get_mid_price ::
  "world \<Rightarrow> market_maker \<Rightarrow> event list \<Rightarrow> (exn + (string \<rightharpoonup> real)) \<times> event list" where
  "get_mid_price w p tr =
     (case get_market w tr (market_ticker p) of
        Inl e \<Rightarrow> (Inl e, tr @ [Invoked (GetMarket (market_ticker p)) (Raised e)])
      | Inr m \<Rightarrow>
          (let yes_mid = py_round2 ((real_of_int (yes_bid m) / 100 + real_of_int (yes_ask m) / 100) / 2);
               no_mid = py_round2 ((real_of_int (no_bid m) / 100 + real_of_int (no_ask m) / 100) / 2)
           in (Inr [''yes'' \<mapsto> yes_mid, ''no'' \<mapsto> no_mid],
               tr @ [Invoked (GetMarket (market_ticker p)) Returned])))"

fun sum_positions :: "string \<Rightarrow> market_position list \<Rightarrow> int \<Rightarrow> int" where
  "sum_positions tk [] total_position = total_position"
| "sum_positions tk (pos # positions) total_position =
     sum_positions tk positions
       (if ticker pos = tk then total_position + position pos else total_position)"

definition get_current_position ::
  "world \<Rightarrow> market_maker \<Rightarrow> event list \<Rightarrow> (exn + int) \<times> event list" where
  "get_current_position w p tr =
     (case get_positions w tr (market_ticker p) of
        Inl e \<Rightarrow> (Inl e, tr @ [Invoked (GetPositions (market_ticker p) ''unsettled'') (Raised e)])
      | Inr positions \<Rightarrow>
          (Inr (sum_positions (market_ticker p) positions 0),
           tr @ [Invoked (GetPositions (market_ticker p) ''unsettled'') Returned]))"

definition get_resting_orders ::
  "world \<Rightarrow> market_maker \<Rightarrow> event list \<Rightarrow> (exn + order list) \<times> event list" where
  "get_resting_orders w p tr =
     (case get_orders w tr (market_ticker p) of
        Inl e \<Rightarrow> (Inl e, tr @ [Invoked (GetOrders (market_ticker p) ''resting'') (Raised e)])
      | Inr orders \<Rightarrow> (Inr orders, tr @ [Invoked (GetOrders (market_ticker p) ''resting'') Returned]))"

subsection \<open>Order reconciler\<close>

text \<open>The price of a resting order on the traded side, in dollars.\<close>

definition order_price :: "market_maker \<Rightarrow> order \<Rightarrow> real" where
  "order_price p ord =
     (if trade_side p = ''yes'' then real_of_int (yes_price ord) / 100
      else real_of_int (no_price ord) / 100)"

text \<open>
  The \<^verbatim>\<open>for order in orders\<close> loop of \<^verbatim>\<open>handle_order_side\<close>; \<open>keep_order\<close> is
  the loop's variable of that name. A cancel that raises is logged and the loop goes on.
\<close>

fun handle_order_side_loop ::
  "world \<Rightarrow> market_maker \<Rightarrow> string \<Rightarrow> order list \<Rightarrow> real \<Rightarrow> int \<Rightarrow> order option \<Rightarrow> event list
     \<Rightarrow> order option \<times> event list" where
  "handle_order_side_loop w p act [] desired_price desired_size keep_order tr = (keep_order, tr)"
| "handle_order_side_loop w p act (ord # orders) desired_price desired_size keep_order tr =
     (let current_price = order_price p ord in
      if keep_order = None \<and> \<bar>current_price - desired_price\<bar> < 0.01
           \<and> remaining_count ord = desired_size
      then handle_order_side_loop w p act orders desired_price desired_size (Some ord)
             (log INFO (Keeping act (order_id ord) current_price) tr)
      else
        (let tr1 = log INFO (Cancelling act (order_id ord) current_price) tr in
         case cancel_order w tr1 (order_id ord) of
           Inl e \<Rightarrow>
             handle_order_side_loop w p act orders desired_price desired_size keep_order
               (log ERROR (Failed_to_cancel (order_id ord) e)
                  (tr1 @ [Invoked (CancelOrder (order_id ord)) (Raised e)]))
         | Inr u \<Rightarrow>
             handle_order_side_loop w p act orders desired_price desired_size keep_order
               (tr1 @ [Invoked (CancelOrder (order_id ord)) Returned])))"

text \<open>The \<^verbatim>\<open>try\<close> block that places the new order: whatever is raised in it is logged.\<close>

definition place_new_order ::
  "world \<Rightarrow> market_maker \<Rightarrow> string \<Rightarrow> real \<Rightarrow> int \<Rightarrow> event list \<Rightarrow> event list" where
  "place_new_order w p act desired_price desired_size tr =
     (let price_cents = py_int (desired_price * 100);
          req = \<lparr> req_ticker = market_ticker p,
                  req_client_order_id = uuid4 w tr,
                  req_side = trade_side p,
                  req_action = act,
                  req_count = desired_size,
                  req_type = ''limit'',
                  req_yes_price = (if trade_side p = ''yes'' then Some price_cents else None),
                  req_no_price = (if trade_side p = ''no'' then Some price_cents else None),
                  req_expiration_ts = py_int (time_time w tr) + order_expiration p \<rparr>
      in case create_order w tr req of
           Inl e \<Rightarrow>
             log ERROR (Failed_to_place act e) (tr @ [Invoked (CreateOrder req) (Raised e)])
         | Inr None \<Rightarrow>
             log ERROR (Failed_to_place act KeyError) (tr @ [Invoked (CreateOrder req) Returned])
         | Inr (Some new_id) \<Rightarrow>
             log INFO (Placed act new_id desired_price desired_size)
               (tr @ [Invoked (CreateOrder req) Returned]))"

definition handle_order_side ::
  "world \<Rightarrow> market_maker \<Rightarrow> string \<Rightarrow> order list \<Rightarrow> real \<Rightarrow> int \<Rightarrow> event list
     \<Rightarrow> (exn + unit) \<times> event list" where
  "handle_order_side w p act orders desired_price desired_size tr =
     (case handle_order_side_loop w p act orders desired_price desired_size None tr of
        (keep_order, tr1) \<Rightarrow>
          (case get_mid_price w p tr1 of
             (Inl e, tr2) \<Rightarrow> (Inl e, tr2)
           | (Inr mid_prices, tr2) \<Rightarrow>
               (case mid_prices (trade_side p) of
                  None \<Rightarrow> (Inl KeyError, tr2)
                | Some current_price \<Rightarrow>
                    if keep_order = None then
                      if (act = ''buy'' \<and> desired_price < current_price)
                           \<or> (act = ''sell'' \<and> desired_price > current_price)
                      then (Inr (), place_new_order w p act desired_price desired_size tr2)
                      else (Inr (), log INFO (Skipped act desired_price current_price) tr2)
                    else (Inr (), tr2))))"

text \<open>The loop of \<^verbatim>\<open>manage_orders\<close> that sorts the resting orders by action.\<close>

fun split_orders ::
  "market_maker \<Rightarrow> order list \<Rightarrow> order list \<Rightarrow> order list \<Rightarrow> order list \<times> order list" where
  "split_orders p [] buy_orders sell_orders = (buy_orders, sell_orders)"
| "split_orders p (ord # current_orders) buy_orders sell_orders =
     (if side ord = trade_side p then
        if action ord = ''buy'' then split_orders p current_orders (buy_orders @ [ord]) sell_orders
        else if action ord = ''sell'' then split_orders p current_orders buy_orders (sell_orders @ [ord])
        else split_orders p current_orders buy_orders sell_orders
      else split_orders p current_orders buy_orders sell_orders)"

definition manage_orders ::
  "world \<Rightarrow> market_maker \<Rightarrow> real \<Rightarrow> real \<Rightarrow> int \<Rightarrow> int \<Rightarrow> event list \<Rightarrow> (exn + unit) \<times> event list" where
  "manage_orders w p bid_price ask_price buy_size sell_size tr =
     (case get_resting_orders w p tr of
        (Inl e, tr1) \<Rightarrow> (Inl e, tr1)
      | (Inr current_orders, tr1) \<Rightarrow>
          (case split_orders p current_orders [] [] of
             (buy_orders, sell_orders) \<Rightarrow>
               (let tr2 = log INFO (Current_sell_orders (length sell_orders))
                            (log INFO (Current_buy_orders (length buy_orders))
                               (log INFO (Retrieved (length current_orders)) tr1))
                in case handle_order_side w p ''buy'' buy_orders bid_price buy_size tr2 of
                     (Inl e, tr3) \<Rightarrow> (Inl e, tr3)
                   | (Inr u, tr3) \<Rightarrow>
                       handle_order_side w p ''sell'' sell_orders ask_price sell_size tr3)))"

subsection \<open>One cycle of the strategy loop\<close>

text \<open>
  The body of the \<^verbatim>\<open>while\<close> loop of \<^verbatim>\<open>run\<close>, at elapsed time \<open>current_time\<close>,
  up to the sleep.
\<close>

definition run_cycle ::
  "world \<Rightarrow> market_maker \<Rightarrow> real \<Rightarrow> event list \<Rightarrow> (exn + unit) \<times> event list" where
  "run_cycle w p current_time tr =
     (case get_mid_price w p (log INFO (Running current_time) tr) of
        (Inl e, tr1) \<Rightarrow> (Inl e, tr1)
      | (Inr mid_prices, tr1) \<Rightarrow>
          (case mid_prices (trade_side p) of
             None \<Rightarrow> (Inl KeyError, tr1)
           | Some mid_price \<Rightarrow>
               (case get_current_position w p tr1 of
                  (Inl e, tr2) \<Rightarrow> (Inl e, tr2)
                | (Inr inventory, tr2) \<Rightarrow>
                    (let tr3 = log INFO (Current_mid (trade_side p) mid_price inventory) tr2 in
                     case calculate_reservation_price p mid_price inventory current_time of
                       Inl e \<Rightarrow> (Inl e, tr3)
                     | Inr reservation_price \<Rightarrow>
                         (case calculate_asymmetric_quotes p mid_price inventory current_time of
                            Inl e \<Rightarrow> (Inl e, tr3)
                          | Inr (bid_price, ask_price) \<Rightarrow>
                              (case calculate_order_sizes p inventory of
                                 (buy_size, sell_size) \<Rightarrow>
                                   manage_orders w p bid_price ask_price buy_size sell_size
                                     (log INFO (Desired bid_price ask_price)
                                        (log INFO (Reservation reservation_price) tr3))))))))"

subsection \<open>Reading a trace\<close>

text \<open>The events a run appended to the trace \<open>tr\<close> it started from.\<close>

definition issued :: "event list \<Rightarrow> event list \<Rightarrow> event list" where
  "issued tr tr' = drop (length tr) tr'"

fun is_cancel :: "event \<Rightarrow> bool" where
  "is_cancel (Invoked (CancelOrder i) r) = True"
| "is_cancel e = False"

fun is_mid_fetch :: "event \<Rightarrow> bool" where
  "is_mid_fetch (Invoked (GetMarket tk) r) = True"
| "is_mid_fetch e = False"

fun is_create :: "event \<Rightarrow> bool" where
  "is_create (Invoked (CreateOrder req) r) = True"
| "is_create e = False"

fun is_error_log :: "event \<Rightarrow> bool" where
  "is_error_log (Log ERROR m) = True"
| "is_error_log e = False"

text \<open>The order ids of the cancel calls of a trace, in the order of the calls.\<close>

fun cancel_ids :: "event list \<Rightarrow> string list" where
  "cancel_ids [] = []"
| "cancel_ids (Invoked (CancelOrder i) r # es) = i # cancel_ids es"
| "cancel_ids (e # es) = cancel_ids es"

text \<open>
  A trace issues its cancels first when no cancel call comes after a mid fetch or
  after an order placement.
\<close>

fun cancels_first :: "event list \<Rightarrow> bool" where
  "cancels_first [] = True"
| "cancels_first (e # es) =
     (if is_mid_fetch e \<or> is_create e then list_all (\<lambda>x. \<not> is_cancel x) es
      else cancels_first es)"

text \<open>
  Every client call that raised is followed at once by its own error record, and by
  nothing else about it: the failed call is not issued again before the next event.
\<close>

fun failures_logged :: "event list \<Rightarrow> bool" where
  "failures_logged [] = True"
| "failures_logged (Invoked (CancelOrder i) (Raised e) # es) =
     (case es of
        Log ERROR (Failed_to_cancel j e') # es' \<Rightarrow> j = i \<and> e' = e \<and> failures_logged es'
      | _ \<Rightarrow> False)"
| "failures_logged (Invoked (CreateOrder req) (Raised e) # es) =
     (case es of
        Log ERROR (Failed_to_place a e') # es' \<Rightarrow> a = req_action req \<and> e' = e \<and> failures_logged es'
      | _ \<Rightarrow> False)"
| "failures_logged (ev # es) = failures_logged es"

subsection \<open>The reconciliation contract in the words of the specification\<close>

text \<open>
  An order matches the desired quote when its price is within 0.01 of the desired
  price (the source's test is strict: a difference of exactly 0.01 does not match) and
  its remaining size equals the desired size.
\<close>

definition matches_desired :: "market_maker \<Rightarrow> real \<Rightarrow> int \<Rightarrow> order \<Rightarrow> bool" where
  "matches_desired p desired_price desired_size ord =
     (\<bar>order_price p ord - desired_price\<bar> < 0.01 \<and> remaining_count ord = desired_size)"

text \<open>Every order of the list but the first that matches.\<close>

fun extraneous :: "(order \<Rightarrow> bool) \<Rightarrow> order list \<Rightarrow> order list" where
  "extraneous P [] = []"
| "extraneous P (ord # orders) = (if P ord then orders else ord # extraneous P orders)"

text \<open>The resting orders of one action on the traded side, in the order of the list.\<close>

definition orders_on :: "market_maker \<Rightarrow> string \<Rightarrow> order list \<Rightarrow> order list" where
  "orders_on p act orders = filter (\<lambda>ord. side ord = trade_side p \<and> action ord = act) orders"

text \<open>What \<open>manage_orders\<close> appends to the trace before it turns to the buy side.\<close>

definition orders_fetched :: "market_maker \<Rightarrow> order list \<Rightarrow> event list" where
  "orders_fetched p current_orders =
     [Invoked (GetOrders (market_ticker p) ''resting'') Returned,
      Log INFO (Retrieved (length current_orders)),
      Log INFO (Current_buy_orders (length (orders_on p ''buy'' current_orders))),
      Log INFO (Current_sell_orders (length (orders_on p ''sell'' current_orders)))]"

subsection \<open>Concrete inputs\<close>

text \<open>The configuration defaults of src/runner.py, with the ticker of a test market.\<close>

definition default_maker :: market_maker where
  "default_maker =
     \<lparr> market_ticker = ''KXTEST'', base_gamma = 1 / 10, param_k = 3 / 2, sigma = 1 / 2,
       param_T = 3600, max_position = 100, order_expiration = 300, min_spread = 1 / 100,
       position_limit_buffer = 1 / 10, inventory_skew_factor = 1 / 100,
       trade_side = ''yes'' \<rparr>"

text \<open>
  A venue whose market stands at 49/51 cents on both sides (mid 0.50), that holds the
  given resting orders and accepts every cancel and every placement; a second one that
  rejects every cancel and every placement; and three resting orders on the yes side.
\<close>

definition venue :: "order list \<Rightarrow> world" where
  "venue resting =
     \<lparr> get_market = (\<lambda>tr tk. Inr \<lparr> yes_bid = 49, yes_ask = 51, no_bid = 49, no_ask = 51 \<rparr>),
       get_positions = (\<lambda>tr tk. Inr []),
       get_orders = (\<lambda>tr tk. Inr resting),
       cancel_order = (\<lambda>tr i. Inr ()),
       create_order = (\<lambda>tr req. Inr (Some ''new'')),
       uuid4 = (\<lambda>tr. ''uuid''),
       time_time = (\<lambda>tr. 1000) \<rparr>"

definition rejecting_venue :: "order list \<Rightarrow> world" where
  "rejecting_venue resting =
     (venue resting) \<lparr> cancel_order := (\<lambda>tr i. Inl (HTTPError 404)),
                       create_order := (\<lambda>tr req. Inl (HTTPError 400)) \<rparr>"

definition resting_bid :: order where
  "resting_bid = \<lparr> order_id = ''b1'', side = ''yes'', action = ''buy'',
                   yes_price = 48, no_price = 52, remaining_count = 10 \<rparr>"

definition resting_ask :: order where
  "resting_ask = \<lparr> order_id = ''a1'', side = ''yes'', action = ''sell'',
                   yes_price = 52, no_price = 48, remaining_count = 10 \<rparr>"

definition stale_ask :: order where
  "stale_ask = \<lparr> order_id = ''s1'', side = ''yes'', action = ''sell'',
                  yes_price = 60, no_price = 40, remaining_count = 10 \<rparr>"

section \<open>Auxiliary facts\<close>

lemma then_exn_Inr [simp]: "then_exn (Inr x) f = f x"
  by (simp add: then_exn_def)

lemma then_exn_Inl [simp]: "then_exn (Inl e) f = Inl e"
  by (simp add: then_exn_def)

lemma py_div_nonzero: "b \<noteq> 0 \<Longrightarrow> py_div a b = Inr (a / b)"
  by (simp add: py_div_def)

lemma py_log_pos: "0 < x \<Longrightarrow> py_log x = Inr (ln x)"
  by (simp add: py_log_def)

lemma dynamic_gamma_value:
  "max_position p \<noteq> 0 \<Longrightarrow>
   calculate_dynamic_gamma p inventory =
     Inr (base_gamma p * exp (- \<bar>real_of_int inventory / real_of_int (max_position p)\<bar>))"
  by (simp add: calculate_dynamic_gamma_def py_div_nonzero)

lemma optimal_spread_at_least:
  "calculate_optimal_spread p t inventory = Inr s \<Longrightarrow> min_spread p \<le> s"
  by (auto simp: calculate_optimal_spread_def then_exn_def Let_def split: sum.splits)

lemma optimal_spread_returns:
  assumes a: "0 < base_gamma p \<and> 0 < param_k p \<and> 0 < max_position p \<and> param_T p \<noteq> 0"
  shows "\<exists>s. calculate_optimal_spread p t inventory = Inr s"
proof -
  let ?g = "base_gamma p * exp (- \<bar>real_of_int inventory / real_of_int (max_position p)\<bar>)"
  from a have dg: "calculate_dynamic_gamma p inventory = Inr ?g"
    by (simp add: dynamic_gamma_value)
  from a have gpos: "0 < ?g" by simp
  with a have "0 < 1 + ?g / param_k p" by (simp add: add_pos_pos)
  then have lg: "py_log (1 + ?g / param_k p) = Inr (ln (1 + ?g / param_k p))"
    by (rule py_log_pos)
  from gpos have gnz: "?g \<noteq> 0" by (rule less_imp_neq [THEN not_sym])
  show ?thesis
    using a gnz lg unfolding calculate_optimal_spread_def dg
    by (simp add: py_div_nonzero Let_def)
qed

lemma py_int_le: "0 < m \<Longrightarrow> b \<le> 1 \<Longrightarrow> py_int (real_of_int m * b) \<le> m"
proof -
  assume m: "0 < m" and b: "b \<le> 1"
  from m b have le: "real_of_int m * b \<le> real_of_int m"
    by (simp add: mult_le_cancel_left2)
  show ?thesis
  proof (cases "0 \<le> real_of_int m * b")
    case True
    then have "py_int (real_of_int m * b) = \<lfloor>real_of_int m * b\<rfloor>" by (simp add: py_int_def)
    also have "\<dots> \<le> \<lfloor>real_of_int m\<rfloor>" using le by (rule floor_mono)
    finally show ?thesis by simp
  next
    case False
    then have "py_int (real_of_int m * b) = \<lceil>real_of_int m * b\<rceil>" by (simp add: py_int_def)
    also have "\<dots> \<le> \<lceil>real_of_int m\<rceil>" using le by (rule ceiling_mono)
    finally show ?thesis by simp
  qed
qed

lemma capped_nonpos: "a \<le> 0 \<Longrightarrow> b \<le> 0 \<Longrightarrow> max 1 (min a m) = max (1::int) (min b m)"
  by arith

lemma py_int_floor_capped: "max 1 (min (py_int x) m) = max (1::int) (min \<lfloor>x\<rfloor> m)"
proof (cases "0 \<le> x")
  case True
  then show ?thesis by (simp add: py_int_def)
next
  case False
  then have "x \<le> 0" by simp
  then have c: "\<lceil>x\<rceil> \<le> 0" by (simp add: ceiling_le_zero)
  have "\<lfloor>x\<rfloor> \<le> \<lceil>x\<rceil>" by (rule floor_le_ceiling)
  with c have f: "\<lfloor>x\<rfloor> \<le> 0" by simp
  from False have "py_int x = \<lceil>x\<rceil>" by (simp add: py_int_def)
  then show ?thesis using capped_nonpos [OF c f] by (rule ssubst)
qed

lemma reservation_price_returns:
  "max_position p \<noteq> 0 \<Longrightarrow> param_T p \<noteq> 0 \<Longrightarrow>
   \<exists>r. calculate_reservation_price p mid_price inventory t = Inr r"
  by (simp add: calculate_reservation_price_def dynamic_gamma_value py_div_nonzero Let_def)

lemma issued_append [simp]: "issued tr (tr @ new) = new"
  by (simp add: issued_def)

lemma cancel_ids_append: "cancel_ids (xs @ ys) = cancel_ids xs @ cancel_ids ys"
  by (induction xs rule: cancel_ids.induct) simp_all

lemma cancel_ids_none: "\<forall>e\<in>set xs. \<not> is_cancel e \<Longrightarrow> cancel_ids xs = []"
  by (induction xs rule: cancel_ids.induct) simp_all

lemma cancels_first_append:
  "\<forall>e\<in>set xs. \<not> is_mid_fetch e \<and> \<not> is_create e \<Longrightarrow>
   cancels_first (xs @ ys) = cancels_first ys"
  by (induction xs) simp_all

lemma cancels_first_no_cancel:
  "\<forall>e\<in>set xs. \<not> is_cancel e \<Longrightarrow> cancels_first xs"
  by (induction xs) (simp_all add: list_all_iff)

lemma get_mid_price_trace:
  "get_mid_price w p tr = (r, tr') \<Longrightarrow>
   \<exists>oc. tr' = tr @ [Invoked (GetMarket (market_ticker p)) oc]
      \<and> (\<forall>e. (r = Inl e) = (oc = Raised e))"
  by (auto simp: get_mid_price_def Let_def split: sum.splits)

lemma failures_logged_Cons_plain:
  "(\<forall>c e. ev \<noteq> Invoked (CancelOrder c) (Raised e)) \<Longrightarrow>
   (\<forall>c e. ev \<noteq> Invoked (CreateOrder c) (Raised e)) \<Longrightarrow>
   failures_logged (ev # es) = failures_logged es"
  by (cases "(ev # es)" rule: failures_logged.cases) auto

lemma failures_logged_append:
  "failures_logged xs \<Longrightarrow> failures_logged ys \<Longrightarrow> failures_logged (xs @ ys)"
proof (induction xs rule: failures_logged.induct)
  case 1
  then show ?case by simp
next
  case (2 i e es)
  then show ?case
    by (cases es) (auto split: event.splits level.splits message.splits)
next
  case (3 req e es)
  then show ?case
    by (cases es) (auto split: event.splits level.splits message.splits)
qed simp_all

lemma place_new_order_trace:
  "\<exists>req oc lg. place_new_order w p act dp ds tr = tr @ [Invoked (CreateOrder req) oc, lg]
      \<and> req_action req = act
      \<and> \<not> is_cancel lg \<and> \<not> is_mid_fetch lg \<and> \<not> is_create lg
      \<and> failures_logged [Invoked (CreateOrder req) oc, lg]"
proof -
  define req where "req = \<lparr> req_ticker = market_ticker p,
                  req_client_order_id = uuid4 w tr,
                  req_side = trade_side p,
                  req_action = act,
                  req_count = ds,
                  req_type = ''limit'',
                  req_yes_price = (if trade_side p = ''yes'' then Some (py_int (dp * 100)) else None),
                  req_no_price = (if trade_side p = ''no'' then Some (py_int (dp * 100)) else None),
                  req_expiration_ts = py_int (time_time w tr) + order_expiration p \<rparr>"
  have a: "req_action req = act" by (simp add: req_def)
  have unf: "place_new_order w p act dp ds tr =
      (case create_order w tr req of
           Inl e \<Rightarrow>
             log ERROR (Failed_to_place act e) (tr @ [Invoked (CreateOrder req) (Raised e)])
         | Inr None \<Rightarrow>
             log ERROR (Failed_to_place act KeyError) (tr @ [Invoked (CreateOrder req) Returned])
         | Inr (Some new_id) \<Rightarrow>
             log INFO (Placed act new_id dp ds)
               (tr @ [Invoked (CreateOrder req) Returned]))"
    unfolding place_new_order_def Let_def req_def by (rule refl)
  show ?thesis
  proof (cases "create_order w tr req")
    case (Inl e)
    then have "place_new_order w p act dp ds tr = tr @ [Invoked (CreateOrder req) (Raised e), Log ERROR (Failed_to_place act e)]
        \<and> req_action req = act
        \<and> \<not> is_cancel (Log ERROR (Failed_to_place act e)) \<and> \<not> is_mid_fetch (Log ERROR (Failed_to_place act e)) \<and> \<not> is_create (Log ERROR (Failed_to_place act e))
        \<and> failures_logged [Invoked (CreateOrder req) (Raised e), Log ERROR (Failed_to_place act e)]"
      using a by (simp add: unf log_def)
      then show ?thesis by blast
  next
    case (Inr resp)
    show ?thesis
    proof (cases resp)
      case None
      with Inr have "place_new_order w p act dp ds tr = tr @ [Invoked (CreateOrder req) Returned, Log ERROR (Failed_to_place act KeyError)]
          \<and> req_action req = act
          \<and> \<not> is_cancel (Log ERROR (Failed_to_place act KeyError)) \<and> \<not> is_mid_fetch (Log ERROR (Failed_to_place act KeyError)) \<and> \<not> is_create (Log ERROR (Failed_to_place act KeyError))
          \<and> failures_logged [Invoked (CreateOrder req) Returned, Log ERROR (Failed_to_place act KeyError)]"
        using a by (simp add: unf log_def)
        then show ?thesis by blast
    next
      case (Some new_id)
      with Inr have "place_new_order w p act dp ds tr = tr @ [Invoked (CreateOrder req) Returned, Log INFO (Placed act new_id dp ds)]
          \<and> req_action req = act
          \<and> \<not> is_cancel (Log INFO (Placed act new_id dp ds)) \<and> \<not> is_mid_fetch (Log INFO (Placed act new_id dp ds)) \<and> \<not> is_create (Log INFO (Placed act new_id dp ds))
          \<and> failures_logged [Invoked (CreateOrder req) Returned, Log INFO (Placed act new_id dp ds)]"
        using a by (simp add: unf log_def)
        then show ?thesis by blast
    qed
  qed
qed

lemma loop_step_keep:
  "keep = None \<and> matches_desired p dp ds ord \<Longrightarrow>
   handle_order_side_loop w p act (ord # orders) dp ds keep tr =
   handle_order_side_loop w p act orders dp ds (Some ord)
     (tr @ [Log INFO (Keeping act (order_id ord) (order_price p ord))])"
  by (simp add: matches_desired_def log_def Let_def)

lemma loop_step_cancel_raised:
  "\<not> (keep = None \<and> matches_desired p dp ds ord) \<Longrightarrow>
   cancel_order w (tr @ [Log INFO (Cancelling act (order_id ord) (order_price p ord))]) (order_id ord)
     = Inl e \<Longrightarrow>
   handle_order_side_loop w p act (ord # orders) dp ds keep tr =
   handle_order_side_loop w p act orders dp ds keep
     (tr @ [Log INFO (Cancelling act (order_id ord) (order_price p ord)),
            Invoked (CancelOrder (order_id ord)) (Raised e),
            Log ERROR (Failed_to_cancel (order_id ord) e)])"
  by (auto simp: matches_desired_def log_def Let_def)

lemma loop_step_cancel_returned:
  "\<not> (keep = None \<and> matches_desired p dp ds ord) \<Longrightarrow>
   cancel_order w (tr @ [Log INFO (Cancelling act (order_id ord) (order_price p ord))]) (order_id ord)
     = Inr u \<Longrightarrow>
   handle_order_side_loop w p act (ord # orders) dp ds keep tr =
   handle_order_side_loop w p act orders dp ds keep
     (tr @ [Log INFO (Cancelling act (order_id ord) (order_price p ord)),
            Invoked (CancelOrder (order_id ord)) Returned])"
  by (auto simp: matches_desired_def log_def Let_def)

lemma handle_order_side_loop_trace:
  "handle_order_side_loop w p act orders dp ds keep tr = (k, tr') \<Longrightarrow>
   \<exists>new. tr' = tr @ new
     \<and> (\<forall>e\<in>set new. \<not> is_mid_fetch e \<and> \<not> is_create e)
     \<and> cancel_ids new =
         map order_id (if keep = None then extraneous (matches_desired p dp ds) orders else orders)
     \<and> k = (if keep = None then find (matches_desired p dp ds) orders else keep)
     \<and> failures_logged new"
proof (induction orders arbitrary: keep tr k tr')
  case Nil
  then show ?case by simp
next
  case (Cons ord orders)
  show ?case
  proof (cases "keep = None \<and> matches_desired p dp ds ord")
    case True
    let ?pre = "[Log INFO (Keeping act (order_id ord) (order_price p ord))]"
    from Cons.prems have
      "handle_order_side_loop w p act orders dp ds (Some ord) (tr @ ?pre) = (k, tr')"
      by (simp only: loop_step_keep [OF True])
    from Cons.IH [OF this] obtain new where
      n: "tr' = (tr @ ?pre) @ new"
         "\<forall>e\<in>set new. \<not> is_mid_fetch e \<and> \<not> is_create e"
         "cancel_ids new = map order_id orders" "k = Some ord" "failures_logged new"
      by auto
    have "tr' = tr @ (?pre @ new)
        \<and> (\<forall>e\<in>set (?pre @ new). \<not> is_mid_fetch e \<and> \<not> is_create e)
        \<and> cancel_ids (?pre @ new) =
            map order_id (if keep = None then extraneous (matches_desired p dp ds) (ord # orders)
                          else ord # orders)
        \<and> k = (if keep = None then find (matches_desired p dp ds) (ord # orders) else keep)
        \<and> failures_logged (?pre @ new)"
      using n True by simp
    then show ?thesis by blast
  next
    case False
    let ?tr1 = "tr @ [Log INFO (Cancelling act (order_id ord) (order_price p ord))]"
    have ext: "(if keep = None then extraneous (matches_desired p dp ds) (ord # orders)
                else ord # orders)
             = ord # (if keep = None then extraneous (matches_desired p dp ds) orders else orders)"
      using False by auto
    have fnd: "(if keep = None then find (matches_desired p dp ds) (ord # orders) else keep)
             = (if keep = None then find (matches_desired p dp ds) orders else keep)"
      using False by auto
    show ?thesis
    proof (cases "cancel_order w ?tr1 (order_id ord)")
      case (Inl e)
      let ?pre = "[Log INFO (Cancelling act (order_id ord) (order_price p ord)),
                   Invoked (CancelOrder (order_id ord)) (Raised e),
                   Log ERROR (Failed_to_cancel (order_id ord) e)]"
      from Cons.prems have
        "handle_order_side_loop w p act orders dp ds keep (tr @ ?pre) = (k, tr')"
        by (simp only: loop_step_cancel_raised [OF False Inl])
      from Cons.IH [OF this] obtain new where
        n: "tr' = (tr @ ?pre) @ new"
           "\<forall>e\<in>set new. \<not> is_mid_fetch e \<and> \<not> is_create e"
           "cancel_ids new =
              map order_id (if keep = None then extraneous (matches_desired p dp ds) orders else orders)"
           "k = (if keep = None then find (matches_desired p dp ds) orders else keep)"
           "failures_logged new"
        by blast
      have "tr' = tr @ (?pre @ new)
        \<and> (\<forall>e\<in>set (?pre @ new). \<not> is_mid_fetch e \<and> \<not> is_create e)
        \<and> cancel_ids (?pre @ new) =
            map order_id (if keep = None then extraneous (matches_desired p dp ds) (ord # orders)
                          else ord # orders)
        \<and> k = (if keep = None then find (matches_desired p dp ds) (ord # orders) else keep)
        \<and> failures_logged (?pre @ new)"
        unfolding ext fnd using n by simp
      then show ?thesis by blast
    next
      case (Inr u)
      let ?pre = "[Log INFO (Cancelling act (order_id ord) (order_price p ord)),
                   Invoked (CancelOrder (order_id ord)) Returned]"
      from Cons.prems have
        "handle_order_side_loop w p act orders dp ds keep (tr @ ?pre) = (k, tr')"
        by (simp only: loop_step_cancel_returned [OF False Inr])
      from Cons.IH [OF this] obtain new where
        n: "tr' = (tr @ ?pre) @ new"
           "\<forall>e\<in>set new. \<not> is_mid_fetch e \<and> \<not> is_create e"
           "cancel_ids new =
              map order_id (if keep = None then extraneous (matches_desired p dp ds) orders else orders)"
           "k = (if keep = None then find (matches_desired p dp ds) orders else keep)"
           "failures_logged new"
        by blast
      have "tr' = tr @ (?pre @ new)
        \<and> (\<forall>e\<in>set (?pre @ new). \<not> is_mid_fetch e \<and> \<not> is_create e)
        \<and> cancel_ids (?pre @ new) =
            map order_id (if keep = None then extraneous (matches_desired p dp ds) (ord # orders)
                          else ord # orders)
        \<and> k = (if keep = None then find (matches_desired p dp ds) (ord # orders) else keep)
        \<and> failures_logged (?pre @ new)"
        unfolding ext fnd using n by simp
      then show ?thesis by blast
    qed
  qed
qed

lemma get_mid_price_cases:
  obtains (raised) e where
      "get_mid_price w p tr = (Inl e, tr @ [Invoked (GetMarket (market_ticker p)) (Raised e)])"
    | (returned) y n where
      "get_mid_price w p tr =
         (Inr [''yes'' \<mapsto> y, ''no'' \<mapsto> n], tr @ [Invoked (GetMarket (market_ticker p)) Returned])"
  by (cases "get_market w tr (market_ticker p)") (auto simp: get_mid_price_def Let_def)

lemma handle_order_side_raised:
  "handle_order_side_loop w p act orders dp ds None tr = (keep, tr1) \<Longrightarrow>
   get_mid_price w p tr1 = (Inl e, tr2) \<Longrightarrow>
   handle_order_side w p act orders dp ds tr = (Inl e, tr2)"
  by (simp add: handle_order_side_def)

lemma handle_order_side_key_error:
  "handle_order_side_loop w p act orders dp ds None tr = (keep, tr1) \<Longrightarrow>
   get_mid_price w p tr1 = (Inr mids, tr2) \<Longrightarrow> mids (trade_side p) = None \<Longrightarrow>
   handle_order_side w p act orders dp ds tr = (Inl KeyError, tr2)"
  by (simp add: handle_order_side_def)

lemma handle_order_side_kept:
  "handle_order_side_loop w p act orders dp ds None tr = (Some k, tr1) \<Longrightarrow>
   get_mid_price w p tr1 = (Inr mids, tr2) \<Longrightarrow> mids (trade_side p) = Some mid \<Longrightarrow>
   handle_order_side w p act orders dp ds tr = (Inr (), tr2)"
  by (simp add: handle_order_side_def)

lemma handle_order_side_not_kept:
  "handle_order_side_loop w p act orders dp ds None tr = (None, tr1) \<Longrightarrow>
   get_mid_price w p tr1 = (Inr mids, tr2) \<Longrightarrow> mids (trade_side p) = Some mid \<Longrightarrow>
   handle_order_side w p act orders dp ds tr =
     (Inr (), if (act = ''buy'' \<and> dp < mid) \<or> (act = ''sell'' \<and> dp > mid)
              then place_new_order w p act dp ds tr2
              else log INFO (Skipped act dp mid) tr2)"
  by (simp add: handle_order_side_def)

text \<open>The shape of the trace of one side.\<close>

lemma handle_order_side_trace:
  assumes run: "handle_order_side w p act orders dp ds tr = (r, tr')"
  shows "\<exists>cs oc ps.
      handle_order_side_loop w p act orders dp ds None tr
        = (find (matches_desired p dp ds) orders, tr @ cs)
    \<and> (\<forall>e\<in>set cs. \<not> is_mid_fetch e \<and> \<not> is_create e)
    \<and> cancel_ids cs = map order_id (extraneous (matches_desired p dp ds) orders)
    \<and> failures_logged cs
    \<and> tr' = tr @ cs @ Invoked (GetMarket (market_ticker p)) oc # ps
    \<and> (\<forall>e\<in>set ps. \<not> is_cancel e \<and> \<not> is_mid_fetch e)
    \<and> (\<forall>e\<in>set ps. \<forall>req o'. e = Invoked (CreateOrder req) o' \<longrightarrow> req_action req = act)
    \<and> failures_logged ps
    \<and> length (filter is_create ps) \<le> 1
    \<and> (\<forall>e. r = Inl e \<longrightarrow>
          ps = [] \<and> (oc = Raised e \<or> (e = KeyError \<and> trade_side p \<noteq> ''yes'' \<and> trade_side p \<noteq> ''no'')))"
proof -
  obtain keep tr1 where lp: "handle_order_side_loop w p act orders dp ds None tr = (keep, tr1)"
    by (cases "handle_order_side_loop w p act orders dp ds None tr") blast
  from handle_order_side_loop_trace [OF lp] obtain cs where
    cs: "tr1 = tr @ cs" "\<forall>e\<in>set cs. \<not> is_mid_fetch e \<and> \<not> is_create e"
        "cancel_ids cs = map order_id (extraneous (matches_desired p dp ds) orders)"
        "keep = find (matches_desired p dp ds) orders" "failures_logged cs"
    by auto
  note lp' = lp [unfolded cs(1) cs(4)]
  let ?f = "\<lambda>oc. Invoked (GetMarket (market_ticker p)) oc"
  have goal: "\<And>oc ps. tr' = tr @ cs @ ?f oc # ps \<Longrightarrow>
      (\<forall>e\<in>set ps. \<not> is_cancel e \<and> \<not> is_mid_fetch e) \<Longrightarrow>
      (\<forall>e\<in>set ps. \<forall>req o'. e = Invoked (CreateOrder req) o' \<longrightarrow> req_action req = act) \<Longrightarrow>
      failures_logged ps \<Longrightarrow> length (filter is_create ps) \<le> 1 \<Longrightarrow>
      (\<forall>e. r = Inl e \<longrightarrow>
          ps = [] \<and> (oc = Raised e \<or> (e = KeyError \<and> trade_side p \<noteq> ''yes'' \<and> trade_side p \<noteq> ''no''))) \<Longrightarrow>
      ?thesis"
    using lp' cs(2,3,5) by blast
  show ?thesis
  proof (cases rule: get_mid_price_cases [of w p tr1])
    case (raised e)
    from handle_order_side_raised [OF lp raised] run
    have "r = Inl e" "tr' = tr @ cs @ ?f (Raised e) # []" by (simp_all add: cs(1))
    then show ?thesis by (intro goal [of "Raised e" "[]"]) simp_all
  next
    case (returned y n)
    let ?mids = "[''yes'' \<mapsto> y, ''no'' \<mapsto> n]"
    let ?tr2 = "tr1 @ [?f Returned]"
    show ?thesis
    proof (cases "?mids (trade_side p)")
      case None
      then have ts: "trade_side p \<noteq> ''yes''" "trade_side p \<noteq> ''no''"
        by (auto split: if_splits)
      from handle_order_side_key_error [OF lp returned None] run
      have "r = Inl KeyError" "tr' = tr @ cs @ ?f Returned # []" by (simp_all add: cs(1))
      then show ?thesis using ts by (intro goal [of Returned "[]"]) simp_all
    next
      case (Some mid)
      show ?thesis
      proof (cases keep)
        case (Some k)
        from handle_order_side_kept [OF lp [unfolded Some] returned \<open>?mids (trade_side p) = Some mid\<close>] run
        have "r = Inr ()" "tr' = tr @ cs @ ?f Returned # []" by (simp_all add: cs(1))
        then show ?thesis by (intro goal [of Returned "[]"]) simp_all
      next
        case None
        note nk = handle_order_side_not_kept
                    [OF lp [unfolded None] returned \<open>?mids (trade_side p) = Some mid\<close>]
        show ?thesis
        proof (cases "(act = ''buy'' \<and> dp < mid) \<or> (act = ''sell'' \<and> dp > mid)")
          case True
          from place_new_order_trace [of w p act dp ds ?tr2] obtain req o' lg where
            pl: "place_new_order w p act dp ds ?tr2 = ?tr2 @ [Invoked (CreateOrder req) o', lg]"
                "req_action req = act"
                "\<not> is_cancel lg" "\<not> is_mid_fetch lg" "\<not> is_create lg"
                "failures_logged [Invoked (CreateOrder req) o', lg]"
            by blast
          from nk run True pl(1)
          have "r = Inr ()" "tr' = tr @ cs @ ?f Returned # [Invoked (CreateOrder req) o', lg]"
            by (simp_all add: cs(1))
          then show ?thesis using pl(2-6)
            by (intro goal [of Returned "[Invoked (CreateOrder req) o', lg]"]) auto
        next
          case False
          from nk run False
          have "r = Inr ()" "tr' = tr @ cs @ ?f Returned # [Log INFO (Skipped act dp mid)]"
            by (simp_all add: cs(1) log_def)
          then show ?thesis
            by (intro goal [of Returned "[Log INFO (Skipped act dp mid)]"]) simp_all
        qed
      qed
    qed
  qed
qed

lemma split_orders_eq:
  "split_orders p current_orders buy_orders sell_orders =
     (buy_orders @ orders_on p ''buy'' current_orders,
      sell_orders @ orders_on p ''sell'' current_orders)"
  by (induction current_orders arbitrary: buy_orders sell_orders) (auto simp: orders_on_def)

lemma handle_order_side_summary:
  assumes run: "handle_order_side w p act orders dp ds tr = (r, tr')"
  shows "tr' = tr @ issued tr tr'
    \<and> issued tr tr' \<noteq> []
    \<and> cancels_first (issued tr tr')
    \<and> cancel_ids (issued tr tr') = map order_id (extraneous (matches_desired p dp ds) orders)
    \<and> length (filter is_mid_fetch (issued tr tr')) = 1
    \<and> length (filter is_create (issued tr tr')) \<le> 1
    \<and> (\<forall>e\<in>set (issued tr tr'). \<forall>req o'. e = Invoked (CreateOrder req) o' \<longrightarrow> req_action req = act)
    \<and> failures_logged (issued tr tr')
    \<and> (\<forall>e. r = Inl e \<longrightarrow>
          (\<exists>oc. last tr' = Invoked (GetMarket (market_ticker p)) oc
             \<and> (oc = Raised e \<or> (e = KeyError \<and> trade_side p \<noteq> ''yes'' \<and> trade_side p \<noteq> ''no''))))"
proof -
  from handle_order_side_trace [OF run] obtain cs oc ps where
    t: "\<forall>e\<in>set cs. \<not> is_mid_fetch e \<and> \<not> is_create e"
       "cancel_ids cs = map order_id (extraneous (matches_desired p dp ds) orders)"
       "failures_logged cs"
       "tr' = tr @ cs @ Invoked (GetMarket (market_ticker p)) oc # ps"
       "\<forall>e\<in>set ps. \<not> is_cancel e \<and> \<not> is_mid_fetch e"
       "\<forall>e\<in>set ps. \<forall>req o'. e = Invoked (CreateOrder req) o' \<longrightarrow> req_action req = act"
       "failures_logged ps"
       "length (filter is_create ps) \<le> 1"
       "\<forall>e. r = Inl e \<longrightarrow>
          ps = [] \<and> (oc = Raised e \<or> (e = KeyError \<and> trade_side p \<noteq> ''yes'' \<and> trade_side p \<noteq> ''no''))"
    by blast
  let ?f = "Invoked (GetMarket (market_ticker p)) oc"
  have iss: "issued tr tr' = cs @ ?f # ps" by (simp add: t(4))
  have 1: "tr' = tr @ issued tr tr'" unfolding iss by (rule t(4))
  have 2: "issued tr tr' \<noteq> []" unfolding iss by simp
  have "\<forall>e\<in>set ps. \<not> is_cancel e" using t(5) by blast
  then have nc: "cancel_ids ps = []" by (rule cancel_ids_none)
  have "cancels_first (?f # ps)" using t(5) by (simp add: list_all_iff)
  then have 3: "cancels_first (issued tr tr')"
    unfolding iss by (simp only: cancels_first_append [OF t(1)])
  have 4: "cancel_ids (issued tr tr') = map order_id (extraneous (matches_desired p dp ds) orders)"
    unfolding iss by (simp add: cancel_ids_append t(2) nc)
  have fcs: "filter is_mid_fetch cs = []" using t(1) by (simp add: filter_empty_conv)
  have fps: "filter is_mid_fetch ps = []" using t(5) by (simp add: filter_empty_conv)
  have 5: "length (filter is_mid_fetch (issued tr tr')) = 1"
    unfolding iss by (simp add: fcs fps)
  have ccs: "filter is_create cs = []" using t(1) by (simp add: filter_empty_conv)
  have 6: "length (filter is_create (issued tr tr')) \<le> 1"
    unfolding iss using t(8) by (simp add: ccs)
  have 7: "\<forall>e\<in>set (issued tr tr'). \<forall>req o'. e = Invoked (CreateOrder req) o' \<longrightarrow> req_action req = act"
    unfolding iss using t(1) t(6) by auto
  have "failures_logged (?f # ps)" using t(7) by simp
  with t(3) have 8: "failures_logged (issued tr tr')"
    unfolding iss by (rule failures_logged_append)
  have 9: "\<forall>e. r = Inl e \<longrightarrow>
          (\<exists>oc. last tr' = Invoked (GetMarket (market_ticker p)) oc
             \<and> (oc = Raised e \<or> (e = KeyError \<and> trade_side p \<noteq> ''yes'' \<and> trade_side p \<noteq> ''no'')))"
  proof (intro allI impI)
    fix e assume "r = Inl e"
    with t(9) have ps: "ps = []"
      and oc: "oc = Raised e \<or> (e = KeyError \<and> trade_side p \<noteq> ''yes'' \<and> trade_side p \<noteq> ''no'')"
      by blast+
    have "last tr' = ?f" by (simp add: t(4) ps)
    with oc show "\<exists>oc. last tr' = Invoked (GetMarket (market_ticker p)) oc
             \<and> (oc = Raised e \<or> (e = KeyError \<and> trade_side p \<noteq> ''yes'' \<and> trade_side p \<noteq> ''no''))"
      by blast
  qed
  from 1 2 3 4 5 6 7 8 9 show ?thesis by blast
qed

lemma manage_orders_cases [consumes 1, case_names orders_raised buy_raised both_sides]:
  assumes run: "manage_orders w p bid ask bs ss tr = (r, tr')"
  obtains (orders_raised) e where
      "r = Inl e" "tr' = tr @ [Invoked (GetOrders (market_ticker p) ''resting'') (Raised e)]"
      "get_orders w tr (market_ticker p) = Inl e"
  | (buy_raised) current_orders e where
      "get_orders w tr (market_ticker p) = Inr current_orders"
      "handle_order_side w p ''buy'' (orders_on p ''buy'' current_orders) bid bs
         (tr @ orders_fetched p current_orders) = (Inl e, tr')"
      "r = Inl e"
  | (both_sides) current_orders tr3 where
      "get_orders w tr (market_ticker p) = Inr current_orders"
      "handle_order_side w p ''buy'' (orders_on p ''buy'' current_orders) bid bs
         (tr @ orders_fetched p current_orders) = (Inr (), tr3)"
      "handle_order_side w p ''sell'' (orders_on p ''sell'' current_orders) ask ss tr3 = (r, tr')"
proof (cases "get_orders w tr (market_ticker p)")
  case (Inl e)
  with run have "r = Inl e" "tr' = tr @ [Invoked (GetOrders (market_ticker p) ''resting'') (Raised e)]"
    by (simp_all add: manage_orders_def get_resting_orders_def)
  then show ?thesis using Inl by (rule orders_raised)
next
  case (Inr current_orders)
  let ?tr2 = "tr @ orders_fetched p current_orders"
  obtain r1 tr3 where
    b: "handle_order_side w p ''buy'' (orders_on p ''buy'' current_orders) bid bs ?tr2 = (r1, tr3)"
    by (cases "handle_order_side w p ''buy'' (orders_on p ''buy'' current_orders) bid bs ?tr2") blast
  have unf: "manage_orders w p bid ask bs ss tr =
      (case r1 of Inl e \<Rightarrow> (Inl e, tr3)
       | Inr u \<Rightarrow> handle_order_side w p ''sell'' (orders_on p ''sell'' current_orders) ask ss tr3)"
    using Inr b
    by (simp add: manage_orders_def get_resting_orders_def split_orders_eq orders_fetched_def
          log_def Let_def split: sum.splits)
  show ?thesis
  proof (cases r1)
    case (Inl e)
    with unf run have "r = Inl e" "tr3 = tr'" by simp_all
    with Inr b Inl show ?thesis by (intro buy_raised [of current_orders e]) simp_all
  next
    case (Inr u)
    with unf run have
      "handle_order_side w p ''sell'' (orders_on p ''sell'' current_orders) ask ss tr3 = (r, tr')"
      by simp
    with \<open>get_orders w tr (market_ticker p) = Inr current_orders\<close> b Inr
    show ?thesis by (intro both_sides [of current_orders tr3]) simp_all
  qed
qed

lemma orders_fetched_quiet:
  "\<forall>e\<in>set (orders_fetched p current_orders). \<not> is_cancel e \<and> \<not> is_mid_fetch e \<and> \<not> is_create e"
  by (simp add: orders_fetched_def)

lemma failures_logged_orders_fetched: "failures_logged (orders_fetched p current_orders)"
  by (simp add: orders_fetched_def)

lemma issued_twice:
  "tr2 = tr @ pre \<Longrightarrow> tr3 = tr2 @ b \<Longrightarrow> tr' = tr3 @ s \<Longrightarrow> issued tr tr' = pre @ b @ s"
  by (simp add: issued_def)

lemma manage_orders_trace:
  assumes run: "manage_orders w p bid ask bs ss tr = (r, tr')"
  shows "\<exists>pre b s.
      tr' = tr @ pre @ b @ s
    \<and> (\<forall>e\<in>set pre. \<not> is_cancel e \<and> \<not> is_mid_fetch e \<and> \<not> is_create e)
    \<and> cancels_first b \<and> cancels_first s
    \<and> (\<forall>e\<in>set b. \<forall>req o'. e = Invoked (CreateOrder req) o' \<longrightarrow> req_action req = ''buy'')
    \<and> (\<forall>e\<in>set s. \<forall>req o'. e = Invoked (CreateOrder req) o' \<longrightarrow> req_action req = ''sell'')
    \<and> failures_logged pre \<and> failures_logged b \<and> failures_logged s
    \<and> length (filter is_create b) \<le> 1 \<and> length (filter is_create s) \<le> 1
    \<and> (\<forall>u. r = Inr u \<longrightarrow>
          (\<exists>current_orders. get_orders w tr (market_ticker p) = Inr current_orders
             \<and> pre = orders_fetched p current_orders
             \<and> cancel_ids b = map order_id
                 (extraneous (matches_desired p bid bs) (orders_on p ''buy'' current_orders))
             \<and> cancel_ids s = map order_id
                 (extraneous (matches_desired p ask ss) (orders_on p ''sell'' current_orders))
             \<and> length (filter is_mid_fetch b) = 1
             \<and> length (filter is_mid_fetch s) = 1))
    \<and> (\<forall>e. r = Inl e \<longrightarrow>
          (\<exists>c oc. last tr' = Invoked c oc
             \<and> (c = GetOrders (market_ticker p) ''resting'' \<or> c = GetMarket (market_ticker p))
             \<and> (oc = Raised e \<or> (e = KeyError \<and> trade_side p \<noteq> ''yes'' \<and> trade_side p \<noteq> ''no''))))"
  using run
proof (cases rule: manage_orders_cases)
  case (orders_raised e)
  let ?pre = "[Invoked (GetOrders (market_ticker p) ''resting'') (Raised e)]"
  have "tr' = tr @ ?pre @ [] @ []" using orders_raised(2) by simp
  moreover have "last tr' = Invoked (GetOrders (market_ticker p) ''resting'') (Raised e)"
    using orders_raised(2) by simp
  ultimately show ?thesis using orders_raised(1)
    by (intro exI [of _ ?pre] exI [of _ "[]"]) simp
next
  case (buy_raised current_orders e)
  let ?pre = "orders_fetched p current_orders"
  let ?b = "issued (tr @ ?pre) tr'"
  note sb = handle_order_side_summary [OF buy_raised(2)]
  from sb have tr': "tr' = (tr @ ?pre) @ ?b" by blast
  then have 1: "tr' = tr @ ?pre @ ?b @ []" by simp
  from sb buy_raised(3) have 2: "\<forall>e'. r = Inl e' \<longrightarrow>
          (\<exists>c oc. last tr' = Invoked c oc
             \<and> (c = GetOrders (market_ticker p) ''resting'' \<or> c = GetMarket (market_ticker p))
             \<and> (oc = Raised e' \<or> (e' = KeyError \<and> trade_side p \<noteq> ''yes'' \<and> trade_side p \<noteq> ''no'')))"
    by blast
  have 3: "\<forall>u. r \<noteq> Inr u" using buy_raised(3) by simp
  from sb have 4: "cancels_first ?b" "failures_logged ?b" "length (filter is_create ?b) \<le> 1"
    "\<forall>e\<in>set ?b. \<forall>req o'. e = Invoked (CreateOrder req) o' \<longrightarrow> req_action req = ''buy''"
    by blast+
  show ?thesis
    apply (rule exI [of _ ?pre], rule exI [of _ ?b], rule exI [of _ "[]"])
    using 1 2 3 4 orders_fetched_quiet [of p current_orders]
      failures_logged_orders_fetched [of p current_orders]
    apply (intro conjI)
    apply simp_all
    done
next
  case (both_sides current_orders tr3)
  let ?pre = "orders_fetched p current_orders"
  let ?b = "issued (tr @ ?pre) tr3"
  let ?s = "issued tr3 tr'"
  note sb = handle_order_side_summary [OF both_sides(2)]
  note ss = handle_order_side_summary [OF both_sides(3)]
  from sb have tr3: "tr3 = (tr @ ?pre) @ ?b" by blast
  from ss have "tr' = tr3 @ ?s" by blast
  with tr3 have "tr' = ((tr @ ?pre) @ ?b) @ ?s" by simp
  then have 1: "tr' = tr @ ?pre @ ?b @ ?s" by simp
  from ss have 2: "\<forall>e'. r = Inl e' \<longrightarrow>
          (\<exists>c oc. last tr' = Invoked c oc
             \<and> (c = GetOrders (market_ticker p) ''resting'' \<or> c = GetMarket (market_ticker p))
             \<and> (oc = Raised e' \<or> (e' = KeyError \<and> trade_side p \<noteq> ''yes'' \<and> trade_side p \<noteq> ''no'')))"
    by blast
  from sb have 4: "cancels_first ?b" "failures_logged ?b" "length (filter is_create ?b) \<le> 1"
    "\<forall>e\<in>set ?b. \<forall>req o'. e = Invoked (CreateOrder req) o' \<longrightarrow> req_action req = ''buy''"
    "cancel_ids ?b = map order_id
       (extraneous (matches_desired p bid bs) (orders_on p ''buy'' current_orders))"
    "length (filter is_mid_fetch ?b) = 1"
    by blast+
  from ss have 5: "cancels_first ?s" "failures_logged ?s" "length (filter is_create ?s) \<le> 1"
    "\<forall>e\<in>set ?s. \<forall>req o'. e = Invoked (CreateOrder req) o' \<longrightarrow> req_action req = ''sell''"
    "cancel_ids ?s = map order_id
       (extraneous (matches_desired p ask ss) (orders_on p ''sell'' current_orders))"
    "length (filter is_mid_fetch ?s) = 1"
    by blast+
  have 6: "\<forall>u. r = Inr u \<longrightarrow>
          (\<exists>co. get_orders w tr (market_ticker p) = Inr co
             \<and> ?pre = orders_fetched p co
             \<and> cancel_ids ?b = map order_id
                 (extraneous (matches_desired p bid bs) (orders_on p ''buy'' co))
             \<and> cancel_ids ?s = map order_id
                 (extraneous (matches_desired p ask ss) (orders_on p ''sell'' co))
             \<and> length (filter is_mid_fetch ?b) = 1
             \<and> length (filter is_mid_fetch ?s) = 1)"
    using both_sides(1) 4(5,6) 5(5,6) by blast
  show ?thesis
    apply (rule exI [of _ ?pre], rule exI [of _ ?b], rule exI [of _ ?s])
    using 1 2 4(1-4) 5(1-4) 6 orders_fetched_quiet [of p current_orders]
      failures_logged_orders_fetched [of p current_orders]
    apply (intro conjI)
    apply blast+
    done
qed

lemma cancel_ids_empty_no_cancel:
  "cancel_ids xs = [] \<Longrightarrow> \<forall>e\<in>set xs. \<not> is_cancel e"
  by (induction xs rule: cancel_ids.induct) simp_all

lemma handle_order_side_returns:
  assumes "\<forall>h e. get_market w h (market_ticker p) \<noteq> Inl e"
      and "trade_side p = ''yes'' \<or> trade_side p = ''no''"
  shows "fst (handle_order_side w p act orders dp ds tr) = Inr ()"
proof -
  obtain keep tr1 where lp: "handle_order_side_loop w p act orders dp ds None tr = (keep, tr1)"
    by (cases "handle_order_side_loop w p act orders dp ds None tr") blast
  obtain m where m: "get_market w tr1 (market_ticker p) = Inr m"
    using assms(1) by (cases "get_market w tr1 (market_ticker p)") auto
  show ?thesis
    using assms(2) by (auto simp: handle_order_side_def lp get_mid_price_def m Let_def)
qed

lemma manage_orders_returns:
  assumes "\<forall>h e. get_market w h (market_ticker p) \<noteq> Inl e"
      and "\<forall>h e. get_orders w h (market_ticker p) \<noteq> Inl e"
      and "trade_side p = ''yes'' \<or> trade_side p = ''no''"
  shows "fst (manage_orders w p bid ask bs ss tr) = Inr ()"
proof -
  obtain r tr' where run: "manage_orders w p bid ask bs ss tr = (r, tr')"
    by (cases "manage_orders w p bid ask bs ss tr") blast
  from run have "r = Inr ()"
  proof (cases rule: manage_orders_cases)
    case (orders_raised e)
    with assms(2) show ?thesis by blast
  next
    case (buy_raised current_orders e)
    from handle_order_side_returns [OF assms(1,3), of "''buy''" "orders_on p ''buy'' current_orders"
           bid bs "tr @ orders_fetched p current_orders"] buy_raised(2)
    show ?thesis by simp
  next
    case (both_sides current_orders tr3)
    from handle_order_side_returns [OF assms(1,3), of "''sell''" "orders_on p ''sell'' current_orders"
           ask ss tr3] both_sides(3)
    show ?thesis by simp
  qed
  with run show ?thesis by simp
qed

lemma handle_order_side_kept_trace:
  assumes run: "handle_order_side w p act orders dp ds tr = (r, tr')"
      and kept: "find (matches_desired p dp ds) orders = Some k"
  shows "\<forall>e\<in>set (issued tr tr'). \<not> is_create e"
proof -
  from handle_order_side_trace [OF run] obtain cs where
    lp: "handle_order_side_loop w p act orders dp ds None tr
           = (find (matches_desired p dp ds) orders, tr @ cs)"
    and cs: "\<forall>e\<in>set cs. \<not> is_mid_fetch e \<and> \<not> is_create e"
    by blast
  note lp' = lp [unfolded kept]
  let ?f = "\<lambda>oc. Invoked (GetMarket (market_ticker p)) oc"
  have "\<exists>oc. tr' = tr @ cs @ [?f oc]"
  proof (cases rule: get_mid_price_cases [of w p "tr @ cs"])
    case (raised e)
    from handle_order_side_raised [OF lp' raised] run show ?thesis by simp
  next
    case (returned y n)
    show ?thesis
    proof (cases "[''yes'' \<mapsto> y, ''no'' \<mapsto> n] (trade_side p)")
      case None
      from handle_order_side_key_error [OF lp' returned None] run show ?thesis by simp
    next
      case (Some mid)
      from handle_order_side_kept [OF lp' returned Some] run show ?thesis by simp
    qed
  qed
  then obtain oc where "tr' = tr @ cs @ [?f oc]" by blast
  then have "issued tr tr' = cs @ [?f oc]" by simp
  with cs show ?thesis by simp
qed

lemma run_cycle_returned:
  assumes run: "run_cycle w p t tr = (Inr u, tr')"
  obtains pre bid ask bsz ssz where
    "manage_orders w p bid ask bsz ssz (tr @ pre) = (Inr u, tr')"
    "length (filter is_mid_fetch pre) = 1"
proof -
  let ?tr0 = "tr @ [Log INFO (Running t)]"
  let ?f = "Invoked (GetMarket (market_ticker p)) Returned"
  let ?g = "Invoked (GetPositions (market_ticker p) ''unsettled'') Returned"
  from run obtain mids where g1: "get_mid_price w p ?tr0 = (Inr mids, ?tr0 @ [?f])"
    by (cases rule: get_mid_price_cases [of w p ?tr0]) (auto simp: run_cycle_def log_def)
  from run g1 obtain mid where mid: "mids (trade_side p) = Some mid"
    by (cases "mids (trade_side p)") (auto simp: run_cycle_def log_def)
  let ?tr1 = "?tr0 @ [?f]"
  from run g1 mid obtain inventory where
    pos: "get_current_position w p ?tr1 = (Inr inventory, ?tr1 @ [?g])"
    by (cases "get_positions w ?tr1 (market_ticker p)")
       (auto simp: run_cycle_def log_def get_current_position_def)
  from run g1 mid pos obtain rp where rp: "calculate_reservation_price p mid inventory t = Inr rp"
    by (cases "calculate_reservation_price p mid inventory t")
       (auto simp: run_cycle_def log_def Let_def)
  from run g1 mid pos rp obtain bid ask where
    q: "calculate_asymmetric_quotes p mid inventory t = Inr (bid, ask)"
    by (cases "calculate_asymmetric_quotes p mid inventory t")
       (auto simp: run_cycle_def log_def Let_def)
  obtain bsz ssz where sz: "calculate_order_sizes p inventory = (bsz, ssz)"
    by (cases "calculate_order_sizes p inventory") blast
  let ?pre = "[Log INFO (Running t), ?f, ?g, Log INFO (Current_mid (trade_side p) mid inventory),
               Log INFO (Reservation rp), Log INFO (Desired bid ask)]"
  from run g1 mid pos rp q sz
  have "manage_orders w p bid ask bsz ssz (tr @ ?pre) = (Inr u, tr')"
    by (simp add: run_cycle_def log_def Let_def)
  moreover have "length (filter is_mid_fetch ?pre) = 1" by simp
  ultimately show ?thesis by (rule that)
qed

lemma asymmetric_quotes_returns:
  assumes g: "0 < base_gamma p" and k: "0 < param_k p" and m: "0 < max_position p"
      and T: "param_T p \<noteq> 0"
  shows "\<exists>bid_price ask_price.
           calculate_asymmetric_quotes p mid_price inventory t = Inr (bid_price, ask_price)"
proof -
  from m have nz: "max_position p \<noteq> 0" by simp
  from reservation_price_returns [OF nz T]
  obtain r where r: "calculate_reservation_price p mid_price inventory t = Inr r" by blast
  from optimal_spread_returns [of p t inventory] g k m T
  obtain s where s: "calculate_optimal_spread p t inventory = Inr s" by blast
  from nz have d: "py_div (real_of_int inventory) (real_of_int (max_position p))
      = Inr (real_of_int inventory / real_of_int (max_position p))"
    by (simp add: py_div_nonzero)
  show ?thesis
    unfolding calculate_asymmetric_quotes_def r s d by (simp add: Let_def)
qed

lemma run_cycle_returns:
  assumes gm: "\<forall>h e. get_market w h (market_ticker p) \<noteq> Inl e"
      and go: "\<forall>h e. get_orders w h (market_ticker p) \<noteq> Inl e"
      and gp: "\<forall>h e. get_positions w h (market_ticker p) \<noteq> Inl e"
      and ts: "trade_side p = ''yes'' \<or> trade_side p = ''no''"
      and g: "0 < base_gamma p" and k: "0 < param_k p" and m: "0 < max_position p"
      and T: "param_T p \<noteq> 0"
  shows "fst (run_cycle w p t tr) = Inr ()"
proof -
  let ?tr0 = "log INFO (Running t) tr"
  obtain mk where mk: "get_market w ?tr0 (market_ticker p) = Inr mk"
    using gm by (cases "get_market w ?tr0 (market_ticker p)") auto
  obtain mids tr1 where g1: "get_mid_price w p ?tr0 = (Inr mids, tr1)"
    and dom: "mids ''yes'' \<noteq> None" "mids ''no'' \<noteq> None"
    by (simp add: get_mid_price_def mk Let_def)
  from ts dom obtain mid where mid: "mids (trade_side p) = Some mid" by auto
  obtain ps where ps: "get_positions w tr1 (market_ticker p) = Inr ps"
    using gp by (cases "get_positions w tr1 (market_ticker p)") auto
  obtain inventory tr2 where pos: "get_current_position w p tr1 = (Inr inventory, tr2)"
    by (simp add: get_current_position_def ps)
  from m have nz: "max_position p \<noteq> 0" by simp
  from reservation_price_returns [OF nz T]
  obtain rp where rp: "calculate_reservation_price p mid inventory t = Inr rp" by blast
  from asymmetric_quotes_returns [OF g k m T]
  obtain bid ask where q: "calculate_asymmetric_quotes p mid inventory t = Inr (bid, ask)" by blast
  obtain bsz ssz where sz: "calculate_order_sizes p inventory = (bsz, ssz)"
    by (cases "calculate_order_sizes p inventory") blast
  have "run_cycle w p t tr =
      manage_orders w p bid ask bsz ssz
        (log INFO (Desired bid ask)
           (log INFO (Reservation rp) (log INFO (Current_mid (trade_side p) mid inventory) tr2)))"
    by (simp add: run_cycle_def g1 mid pos rp q sz Let_def)
  with manage_orders_returns [OF gm go ts] show ?thesis by simp
qed

text \<open>Runs on the concrete venue, evaluated.\<close>

lemmas run_defs = manage_orders_def get_resting_orders_def venue_def rejecting_venue_def
  stale_ask_def resting_bid_def resting_ask_def default_maker_def
  handle_order_side_def get_mid_price_def py_round2_def round_half_even_def place_new_order_def
  log_def order_price_def py_int_def Let_def issued_def

lemma venue_fetches:
  "\<forall>h e. get_market (venue resting) h tk \<noteq> Inl e"
  "\<forall>h e. get_orders (venue resting) h tk \<noteq> Inl e"
  "\<forall>h e. get_positions (venue resting) h tk \<noteq> Inl e"
  by (simp_all add: venue_def)

lemma rejecting_venue_fetches:
  "\<forall>h e. get_market (rejecting_venue resting) h tk \<noteq> Inl e"
  "\<forall>h e. get_orders (rejecting_venue resting) h tk \<noteq> Inl e"
  by (simp_all add: rejecting_venue_def venue_def)

lemma stale_ask_cycle_trace: "manage_orders (venue [stale_ask]) default_maker (9 / 20) (11 / 20) 10 10 [] =
  (Inr (),
  [Invoked (GetOrders ''KXTEST'' ''resting'') Returned,
   Log INFO (Retrieved 1), Log INFO (Current_buy_orders 0),
   Log INFO (Current_sell_orders 1),
   Invoked (GetMarket ''KXTEST'') Returned,
   Invoked
    (CreateOrder
      \<lparr>req_ticker = ''KXTEST'', req_client_order_id = ''uuid'',
         req_side = ''yes'', req_action = ''buy'', req_count = 10,
         req_type = ''limit'', req_yes_price = Some 45, req_no_price = None,
         req_expiration_ts = 1300\<rparr>)
    Returned,
   Log INFO (Placed ''buy'' ''new'' (9 / 20) 10),
   Log INFO (Cancelling ''sell'' ''s1'' (3 / 5)),
   Invoked (CancelOrder ''s1'') Returned,
   Invoked (GetMarket ''KXTEST'') Returned,
   Invoked
    (CreateOrder
      \<lparr>req_ticker = ''KXTEST'', req_client_order_id = ''uuid'',
         req_side = ''yes'', req_action = ''sell'', req_count = 10,
         req_type = ''limit'', req_yes_price = Some 55, req_no_price = None,
         req_expiration_ts = 1300\<rparr>)
    Returned,
   Log INFO (Placed ''sell'' ''new'' (11 / 20) 10)])"
  by (simp add: run_defs)

lemma kept_bid_side_trace: "handle_order_side (venue []) default_maker ''buy'' [resting_bid] (481 / 1000) 10 [] =
  (Inr (),
  [Log INFO (Keeping ''buy'' ''b1'' (12 / 25)),
   Invoked (GetMarket ''KXTEST'') Returned])"
  by (simp add: run_defs)

lemma rejected_cancels_side_trace: "handle_order_side (rejecting_venue []) default_maker ''sell'' [stale_ask, resting_ask, stale_ask] (13 / 25) 10 []
  = (Inr (),
  [Log INFO (Cancelling ''sell'' ''s1'' (3 / 5)),
   Invoked (CancelOrder ''s1'') (Raised (HTTPError 404)),
   Log ERROR (Failed_to_cancel ''s1'' (HTTPError 404)),
   Log INFO (Keeping ''sell'' ''a1'' (13 / 25)),
   Log INFO (Cancelling ''sell'' ''s1'' (3 / 5)),
   Invoked (CancelOrder ''s1'') (Raised (HTTPError 404)),
   Log ERROR (Failed_to_cancel ''s1'' (HTTPError 404)),
   Invoked (GetMarket ''KXTEST'') Returned])"
  by (simp add: run_defs)

lemma skipped_bid_side_trace: "handle_order_side (venue [resting_bid, resting_ask]) default_maker ''buy'' [] (1 / 2) 10 [] =
  (Inr (), [Invoked (GetMarket ''KXTEST'') Returned, Log INFO (Skipped ''buy'' (1 / 2) (1 / 2))])"
  by (simp add: run_defs)

lemma venue_mid_price: "get_mid_price (venue resting) default_maker [] =
  (Inr [''yes'' \<mapsto> 1 / 2, ''no'' \<mapsto> 1 / 2], [Invoked (GetMarket ''KXTEST'') Returned])"
  by (simp add: run_defs)

section \<open>Properties of the quote engine\<close>





text \<open>
  C7. With \<open>\<bar>inventory\<bar> \<le> max_position\<close>, \<open>max_position > 0\<close> and
  \<open>position_limit_buffer\<close> in \<open>(0, 1]\<close>, both sizes returned by
  \<open>calculate_order_sizes\<close> lie between 1 and \<open>max_position\<close>.
\<close>

theorem order_sizes_bounds:
  assumes inv: "\<bar>inventory\<bar> \<le> max_position p"
      and m: "0 < max_position p"
      and b: "0 < position_limit_buffer p" "position_limit_buffer p \<le> 1"
  shows "1 \<le> fst (calculate_order_sizes p inventory)
       \<and> fst (calculate_order_sizes p inventory) \<le> max_position p
       \<and> 1 \<le> snd (calculate_order_sizes p inventory)
       \<and> snd (calculate_order_sizes p inventory) \<le> max_position p"
proof -
  have buf: "py_int (real_of_int (max_position p) * position_limit_buffer p) \<le> max_position p"
    using m b(2) by (rule py_int_le)
  show ?thesis
    using buf m by (simp add: calculate_order_sizes_def Let_def min_le_iff_disj)
qed

theorem order_sizes_bounds_witness:
  "\<bar>80::int\<bar> \<le> max_position default_maker \<and> 0 < max_position default_maker
   \<and> 0 < position_limit_buffer default_maker \<and> position_limit_buffer default_maker \<le> 1
   \<and> calculate_order_sizes default_maker 80 = (10, 100)
   \<and> 1 \<le> fst (calculate_order_sizes default_maker 80)
   \<and> fst (calculate_order_sizes default_maker 80) \<le> max_position default_maker
   \<and> 1 \<le> snd (calculate_order_sizes default_maker 80)
   \<and> snd (calculate_order_sizes default_maker 80) \<le> max_position default_maker"
proof -
  have i: "\<bar>80::int\<bar> \<le> max_position default_maker" by (simp add: default_maker_def)
  have m: "0 < max_position default_maker" by (simp add: default_maker_def)
  have b1: "0 < position_limit_buffer default_maker" by (simp add: default_maker_def)
  have b2: "position_limit_buffer default_maker \<le> 1" by (simp add: default_maker_def)
  have v: "calculate_order_sizes default_maker 80 = (10, 100)"
    by (simp add: calculate_order_sizes_def default_maker_def py_int_def Let_def)
  from order_sizes_bounds [OF i m b1 b2] i m b1 b2 v show ?thesis by blast
qed





section \<open>Properties of the order reconciler\<close>






text \<open>
  C3. When no order was kept on a side and the mid re-fetch returned \<open>current_mid\<close>,
  a placement is issued if and only if the desired price strictly beats it
  (\<open>desired_price < current_mid\<close> for a buy, \<open>desired_price > current_mid\<close> for a
  sell). When it does, the side ends with one \<open>create_order\<close> call for the desired
  size and its log record; when it does not, the side returns normally and ends with
  the information-level record of the skip, and no order is placed.
\<close>

theorem place_iff_beats_refetched_mid:
  assumes none_kept: "handle_order_side_loop w p act orders dp ds None tr = (None, tr1)"
      and refetch: "get_mid_price w p tr1 = (Inr mids, tr2)"
      and mid: "mids (trade_side p) = Some current_mid"
      and run: "handle_order_side w p act orders dp ds tr = (r, tr')"
  shows "((\<exists>e\<in>set (issued tr tr'). is_create e)
            = ((act = ''buy'' \<and> dp < current_mid) \<or> (act = ''sell'' \<and> dp > current_mid)))
       \<and> ((act = ''buy'' \<and> dp < current_mid) \<or> (act = ''sell'' \<and> dp > current_mid) \<longrightarrow>
            r = Inr ()
          \<and> (\<exists>req oc lg. tr' = tr2 @ [Invoked (CreateOrder req) oc, lg] \<and> \<not> is_create lg
                \<and> req_action req = act \<and> req_count req = ds \<and> req_side req = trade_side p))
       \<and> (\<not> ((act = ''buy'' \<and> dp < current_mid) \<or> (act = ''sell'' \<and> dp > current_mid)) \<longrightarrow>
            r = Inr () \<and> tr' = tr2 @ [Log INFO (Skipped act dp current_mid)])"
proof -
  let ?cond = "(act = ''buy'' \<and> dp < current_mid) \<or> (act = ''sell'' \<and> dp > current_mid)"
  from get_mid_price_trace [OF refetch] obtain oc where
    tr2: "tr2 = tr1 @ [Invoked (GetMarket (market_ticker p)) oc]" by blast
  from handle_order_side_loop_trace [OF none_kept] obtain cs where
    cs: "tr1 = tr @ cs" "\<forall>e\<in>set cs. \<not> is_mid_fetch e \<and> \<not> is_create e" by blast
  note nk = handle_order_side_not_kept [OF none_kept refetch mid]
  show ?thesis
  proof (cases ?cond)
    case True
    from nk run True have r: "r = Inr ()" and tr': "tr' = place_new_order w p act dp ds tr2"
      by simp_all
    define req where "req = \<lparr> req_ticker = market_ticker p,
                  req_client_order_id = uuid4 w tr2,
                  req_side = trade_side p,
                  req_action = act,
                  req_count = ds,
                  req_type = ''limit'',
                  req_yes_price = (if trade_side p = ''yes'' then Some (py_int (dp * 100)) else None),
                  req_no_price = (if trade_side p = ''no'' then Some (py_int (dp * 100)) else None),
                  req_expiration_ts = py_int (time_time w tr2) + order_expiration p \<rparr>"
    have fields: "req_action req = act" "req_count req = ds" "req_side req = trade_side p"
      by (simp_all add: req_def)
    have unf: "place_new_order w p act dp ds tr2 =
      (case create_order w tr2 req of
           Inl e \<Rightarrow>
             log ERROR (Failed_to_place act e) (tr2 @ [Invoked (CreateOrder req) (Raised e)])
         | Inr None \<Rightarrow>
             log ERROR (Failed_to_place act KeyError) (tr2 @ [Invoked (CreateOrder req) Returned])
         | Inr (Some new_id) \<Rightarrow>
             log INFO (Placed act new_id dp ds)
               (tr2 @ [Invoked (CreateOrder req) Returned]))"
      unfolding place_new_order_def Let_def req_def by (rule refl)
    have "\<exists>oc' lg. tr' = tr2 @ [Invoked (CreateOrder req) oc', lg] \<and> \<not> is_create lg"
      unfolding tr' unf
      by (cases "create_order w tr2 req") (auto simp: log_def split: option.splits)
    then obtain oc' lg where
      shape: "tr' = tr2 @ [Invoked (CreateOrder req) oc', lg]" "\<not> is_create lg" by blast
    have "issued tr tr' = cs @ [Invoked (GetMarket (market_ticker p)) oc, Invoked (CreateOrder req) oc', lg]"
      by (simp add: shape(1) tr2 cs(1))
    then have "\<exists>e\<in>set (issued tr tr'). is_create e" by simp
    with True r shape fields show ?thesis by blast
  next
    case False
    from nk run False have r: "r = Inr ()" and tr': "tr' = tr2 @ [Log INFO (Skipped act dp current_mid)]"
      by (simp_all add: log_def)
    have "issued tr tr' = cs @ [Invoked (GetMarket (market_ticker p)) oc, Log INFO (Skipped act dp current_mid)]"
      by (simp add: tr' tr2 cs(1))
    then have "\<not> (\<exists>e\<in>set (issued tr tr'). is_create e)" using cs(2) by simp
    with False r tr' show ?thesis by blast
  qed
qed

theorem place_iff_beats_refetched_mid_witness:
  "handle_order_side_loop (venue [resting_bid, resting_ask]) default_maker ''buy'' [] (1 / 2) 10 None []
     = (None, [])
   \<and> get_mid_price (venue [resting_bid, resting_ask]) default_maker []
     = (Inr [''yes'' \<mapsto> 1 / 2, ''no'' \<mapsto> 1 / 2], [Invoked (GetMarket ''KXTEST'') Returned])
   \<and> [''yes'' \<mapsto> 1 / 2, ''no'' \<mapsto> 1 / (2::real)] (trade_side default_maker) = Some (1 / 2)
   \<and> handle_order_side (venue [resting_bid, resting_ask]) default_maker ''buy'' [] (1 / 2) 10 []
     = (Inr (), [Invoked (GetMarket ''KXTEST'') Returned, Log INFO (Skipped ''buy'' (1 / 2) (1 / 2))])
   \<and> \<not> (1 / 2 < (1 / 2 :: real))
   \<and> list_all (\<lambda>e. \<not> is_create e)
        (issued [] [Invoked (GetMarket ''KXTEST'') Returned, Log INFO (Skipped ''buy'' (1 / 2) (1 / 2))])
   \<and> 9 / 20 < (1 / 2 :: real)
   \<and> fst (handle_order_side (venue [resting_bid, resting_ask]) default_maker ''buy'' [] (9 / 20) 10 [])
     = Inr ()
   \<and> (\<exists>e\<in>set (issued [] (snd (handle_order_side (venue [resting_bid, resting_ask]) default_maker
                                     ''buy'' [] (9 / 20) 10 []))). is_create e)"
proof -
  let ?w = "venue [resting_bid, resting_ask]"
  let ?tr' = "[Invoked (GetMarket ''KXTEST'') Returned, Log INFO (Skipped ''buy'' (1 / 2) (1 / 2))]"
  let ?h = "handle_order_side ?w default_maker ''buy'' [] (9 / 20) 10 []"
  have a: "\<And>dp. handle_order_side_loop ?w default_maker ''buy'' [] dp 10 None [] = (None, [])"
    by simp
  have b: "get_mid_price ?w default_maker []
     = (Inr [''yes'' \<mapsto> 1 / 2, ''no'' \<mapsto> 1 / 2], [Invoked (GetMarket ''KXTEST'') Returned])"
    by (rule venue_mid_price)
  have c: "[''yes'' \<mapsto> 1 / 2, ''no'' \<mapsto> 1 / (2::real)] (trade_side default_maker) = Some (1 / 2)"
    by (simp add: default_maker_def)
  have d: "handle_order_side ?w default_maker ''buy'' [] (1 / 2) 10 [] = (Inr (), ?tr')"
    by (rule skipped_bid_side_trace)
  have e: "\<not> (1 / 2 < (1 / 2 :: real))" by simp
  from place_iff_beats_refetched_mid [OF a b c d, THEN conjunct1] e
  have "\<not> (\<exists>e\<in>set (issued [] ?tr'). is_create e)" by simp
  then have f: "list_all (\<lambda>e. \<not> is_create e) (issued [] ?tr')"
    by (simp only: list_all_iff bex_simps)
  have g: "9 / 20 < (1 / 2 :: real)" by simp
  have h: "?h = (fst ?h, snd ?h)" by simp
  note th = place_iff_beats_refetched_mid [OF a b c h]
  from th [THEN conjunct1] g
  have i: "\<exists>e\<in>set (issued [] (snd ?h)). is_create e" by simp
  from th [THEN conjunct2, THEN conjunct1] g have j: "fst ?h = Inr ()" by simp
  from a [of "1 / 2"] b c d e f g j i show ?thesis by (intro conjI)
qed



text \<open>
  C10. Every run of \<open>handle_order_side\<close> issues exactly one mid fetch, whether or not
  an order was kept; a call of \<open>manage_orders\<close> that returns issues two, and a full
  cycle that returns issues three: the snapshot at its start and the two re-fetches.
\<close>

theorem one_mid_fetch_per_side:
  "(handle_order_side w p act orders dp ds tr = (r, tr') \<longrightarrow>
       length (filter is_mid_fetch (issued tr tr')) = 1)
   \<and> (manage_orders w p bid ask bs ss tr = (Inr u, tr2) \<longrightarrow>
       length (filter is_mid_fetch (issued tr tr2)) = 2)
   \<and> (run_cycle w p t tr = (Inr u, tr3) \<longrightarrow>
       length (filter is_mid_fetch (issued tr tr3)) = 3)"
proof (intro conjI impI)
  assume "handle_order_side w p act orders dp ds tr = (r, tr')"
  from handle_order_side_summary [OF this]
  show "length (filter is_mid_fetch (issued tr tr')) = 1" by blast
next
  have two: "\<And>bid ask bs ss tr tr2. manage_orders w p bid ask bs ss tr = (Inr u, tr2) \<Longrightarrow>
      length (filter is_mid_fetch (issued tr tr2)) = 2"
  proof -
    fix bid ask bs ss tr tr2
    assume run: "manage_orders w p bid ask bs ss tr = (Inr u, tr2)"
    from manage_orders_trace [OF run]
    show "length (filter is_mid_fetch (issued tr tr2)) = 2"
    proof (elim exE conjE)
      fix pre b s
      assume t: "tr2 = tr @ pre @ b @ s"
        "\<forall>e\<in>set pre. \<not> is_cancel e \<and> \<not> is_mid_fetch e \<and> \<not> is_create e"
        "\<forall>u'. Inr u = Inr u' \<longrightarrow>
          (\<exists>current_orders. get_orders w tr (market_ticker p) = Inr current_orders
             \<and> pre = orders_fetched p current_orders
             \<and> cancel_ids b = map order_id
                 (extraneous (matches_desired p bid bs) (orders_on p ''buy'' current_orders))
             \<and> cancel_ids s = map order_id
                 (extraneous (matches_desired p ask ss) (orders_on p ''sell'' current_orders))
             \<and> length (filter is_mid_fetch b) = 1
             \<and> length (filter is_mid_fetch s) = 1)"
      from t(3) have c: "length (filter is_mid_fetch b) = 1" "length (filter is_mid_fetch s) = 1"
        by blast+
      from t(2) have "filter is_mid_fetch pre = []" by (simp add: filter_empty_conv)
      with c show ?thesis by (simp add: t(1))
    qed
  qed
  {
    assume "manage_orders w p bid ask bs ss tr = (Inr u, tr2)"
    then show "length (filter is_mid_fetch (issued tr tr2)) = 2" by (rule two)
  next
    assume "run_cycle w p t tr = (Inr u, tr3)"
    then obtain pre bid' ask' bsz ssz where
      m: "manage_orders w p bid' ask' bsz ssz (tr @ pre) = (Inr u, tr3)"
      and one: "length (filter is_mid_fetch pre) = 1"
      by (rule run_cycle_returned)
    from two [OF m] have c: "length (filter is_mid_fetch (issued (tr @ pre) tr3)) = 2" .
    from manage_orders_trace [OF m] have "\<exists>new. tr3 = (tr @ pre) @ new" by blast
    then obtain new where new: "tr3 = (tr @ pre) @ new" by blast
    then have "issued (tr @ pre) tr3 = new" "issued tr tr3 = pre @ new" by (simp_all add: issued_def)
    with c one show "length (filter is_mid_fetch (issued tr tr3)) = 3" by simp
  }
qed

theorem one_mid_fetch_per_side_witness:
  "fst (handle_order_side (venue [resting_bid]) default_maker ''buy'' [resting_bid] (481 / 1000) 10 [])
     = Inr ()
   \<and> list_all (\<lambda>e. \<not> is_cancel e \<and> \<not> is_create e)
        (issued [] (snd (handle_order_side (venue [resting_bid]) default_maker ''buy'' [resting_bid]
                           (481 / 1000) 10 [])))
   \<and> length (filter is_mid_fetch
        (issued [] (snd (handle_order_side (venue [resting_bid]) default_maker ''buy'' [resting_bid]
                           (481 / 1000) 10 [])))) = 1
   \<and> fst (manage_orders (venue [resting_bid]) default_maker (481 / 1000) (11 / 20) 10 10 []) = Inr ()
   \<and> length (filter is_mid_fetch
        (issued [] (snd (manage_orders (venue [resting_bid]) default_maker (481 / 1000) (11 / 20)
                           10 10 [])))) = 2
   \<and> fst (run_cycle (venue [resting_bid]) default_maker 0 []) = Inr ()
   \<and> length (filter is_mid_fetch (issued [] (snd (run_cycle (venue [resting_bid]) default_maker 0 []))))
        = 3"
proof -
  let ?w = "venue [resting_bid]"
  let ?h = "handle_order_side ?w default_maker ''buy'' [resting_bid] (481 / 1000) 10 []"
  let ?m = "manage_orders ?w default_maker (481 / 1000) (11 / 20) 10 10 []"
  let ?c = "run_cycle ?w default_maker 0 []"
  note th = one_mid_fetch_per_side
    [where w = ?w and p = default_maker and act = "''buy''" and orders = "[resting_bid]"
       and dp = "481 / 1000" and ds = 10 and tr = "[]" and r = "fst ?h" and tr' = "snd ?h"
       and bid = "481 / 1000" and ask = "11 / 20" and bs = 10 and ss = 10 and u = "()"
       and ?tr2.0 = "snd ?m" and t = 0 and ?tr3.0 = "snd ?c"]
  have hv: "?h = (Inr (), [Log INFO (Keeping ''buy'' ''b1'' (12 / 25)),
                          Invoked (GetMarket ''KXTEST'') Returned])"
    by (simp add: run_defs)
  have 1: "fst ?h = Inr ()" by (simp add: hv)
  have 2: "list_all (\<lambda>e. \<not> is_cancel e \<and> \<not> is_create e) (issued [] (snd ?h))"
    by (simp add: hv issued_def)
  have h: "?h = (fst ?h, snd ?h)" by simp
  have ts: "trade_side default_maker = ''yes'' \<or> trade_side default_maker = ''no''"
    by (simp add: default_maker_def)
  have 4: "fst ?m = Inr ()"
    by (rule manage_orders_returns [OF venue_fetches(1) venue_fetches(2) ts])
  then have m: "?m = (Inr (), snd ?m)" by (metis prod.collapse)
  have 6: "fst ?c = Inr ()"
    by (rule run_cycle_returns [OF venue_fetches(1) venue_fetches(2) venue_fetches(3) ts])
       (simp_all add: default_maker_def)
  then have c: "?c = (Inr (), snd ?c)" by (metis prod.collapse)
  from th [THEN conjunct1, THEN mp, OF h]
  have 3: "length (filter is_mid_fetch (issued [] (snd ?h))) = 1" .
  from th [THEN conjunct2, THEN conjunct1, THEN mp, OF m]
  have 5: "length (filter is_mid_fetch (issued [] (snd ?m))) = 2" .
  from th [THEN conjunct2, THEN conjunct2, THEN mp, OF c]
  have 7: "length (filter is_mid_fetch (issued [] (snd ?c))) = 3" .
  from 1 2 3 4 5 6 7 show ?thesis by (intro conjI)
qed

end
